theory Spec2Isabelle
  imports Main "HOL-Library.Char_ord" "HOL-Library.List_Lexorder"
begin

section \<open>JSON values and HTTP messages\<close>

text \<open>
  The relay (\<^verbatim>\<open>examples/proxy_server.cpp\<close>) and the reverse agent
  (\<^verbatim>\<open>src/mcp_reverse_client.cpp\<close>) exchange \<^verbatim>\<open>nlohmann::ordered_json\<close> values over
  HTTP. A JSON value is a datatype; an object keeps its members in insertion order.
  A body is the value it parses to: \<open>None\<close> is a body on which \<^verbatim>\<open>json::parse\<close> throws.
  Floating-point numbers do not occur in the protocol fields and are left out.
\<close>

datatype json =
    JNull
  | JBool bool
  | JInt int
  | JStr string
  | JArr "json list"
  | JObj "(string \<times> json) list"

definition contains :: "json \<Rightarrow> string \<Rightarrow> bool" where
  \<comment> \<open>\<^verbatim>\<open>j.contains(key)\<close>: false on anything that is not an object.\<close>
  "contains j k = (case j of JObj kvs \<Rightarrow> map_of kvs k \<noteq> None | _ \<Rightarrow> False)"

definition json_at :: "json \<Rightarrow> string \<Rightarrow> json option" where
  \<comment> \<open>\<^verbatim>\<open>j[key]\<close> on a non-const value: a missing member (or a null value) reads as null,
      any other kind of value throws \<^verbatim>\<open>type_error\<close> (\<open>None\<close>).\<close>
  "json_at j k =
     (case j of
        JObj kvs \<Rightarrow> Some (case map_of kvs k of Some v \<Rightarrow> v | None \<Rightarrow> JNull)
      | JNull \<Rightarrow> Some JNull
      | _ \<Rightarrow> None)"

definition get_string :: "json \<Rightarrow> string option" where
  \<comment> \<open>\<^verbatim>\<open>j.get<std::string>()\<close>: throws \<^verbatim>\<open>type_error\<close> unless the value is a string.\<close>
  "get_string j = (case j of JStr s \<Rightarrow> Some s | _ \<Rightarrow> None)"

record http_request =
  params :: "(string \<times> string) list"
  body :: "json option"

record http_response =
  status :: nat
  content :: "json option"

definition error_reply :: "nat \<Rightarrow> string \<Rightarrow> http_response" where
  \<comment> \<open>\<^verbatim>\<open>res.status = code; res.set_content("{\"error\":\"msg\"}", ...)\<close>\<close>
  "error_reply code msg = \<lparr>status = code, content = Some (JObj [(''error'', JStr msg)])\<rparr>"

section \<open>\<^verbatim>\<open>std::map\<close> as a key-ordered association list\<close>

type_synonym ('k, 'v) std_map = "('k \<times> 'v) list"

definition std_map_find :: "'k \<Rightarrow> ('k, 'v) std_map \<Rightarrow> 'v option" where
  "std_map_find k m = map_of m k"

fun std_map_assign :: "'k::linorder \<Rightarrow> 'v \<Rightarrow> ('k, 'v) std_map \<Rightarrow> ('k, 'v) std_map" where
  \<comment> \<open>\<^verbatim>\<open>m[k] = v\<close>: inserts at the key's place in the order, overwrites an equal key.\<close>
  "std_map_assign k v [] = [(k, v)]"
| "std_map_assign k v ((k', v') # m) =
     (if k < k' then (k, v) # (k', v') # m
      else if k = k' then (k, v) # m
      else (k', v') # std_map_assign k v m)"

definition std_map_erase :: "'k \<Rightarrow> ('k, 'v) std_map \<Rightarrow> ('k, 'v) std_map" where
  "std_map_erase k m = filter (\<lambda>kv. fst kv \<noteq> k) m"

definition std_map_begin :: "('k, 'v) std_map \<Rightarrow> ('k \<times> 'v) option" where
  \<comment> \<open>\<^verbatim>\<open>m.begin()\<close>, with \<open>None\<close> for \<^verbatim>\<open>m.empty()\<close>.\<close>
  "std_map_begin m = (case m of [] \<Rightarrow> None | kv # _ \<Rightarrow> Some kv)"

definition keys :: "('k, 'v) std_map \<Rightarrow> 'k list" where
  "keys m = map fst m"

definition ordered :: "('k::linorder, 'v) std_map \<Rightarrow> bool" where
  \<comment> \<open>The representation invariant of a \<^verbatim>\<open>std::map\<close>: strictly increasing keys.\<close>
  "ordered m = sorted_wrt (<) (keys m)"

section \<open>The identifier generator\<close>

text \<open>
  \<^verbatim>\<open>generate_id\<close> writes sixteen draws of \<^verbatim>\<open>uniform_int_distribution<>(0, 15)\<close> to a
  stream in \<^verbatim>\<open>std::hex\<close> mode. The random source is the parameter \<open>dis\<close>: \<open>dis i\<close> is
  what the \<open>i\<close>-th call \<^verbatim>\<open>dis(gen)\<close> returns.
\<close>

definition hex_digit :: "nat \<Rightarrow> char" where
  "hex_digit d = ''0123456789abcdef'' ! (d mod 16)"

fun to_hex :: "nat \<Rightarrow> string" where
  \<comment> \<open>\<^verbatim>\<open>ss << std::hex << n\<close> for a non-negative \<^verbatim>\<open>int\<close>: no prefix, no padding.\<close>
  "to_hex n = (if n < 16 then [hex_digit n] else to_hex (n div 16) @ [hex_digit (n mod 16)])"

declare to_hex.simps [simp del]

definition generate_id :: "(nat \<Rightarrow> nat) \<Rightarrow> string" where
  "generate_id dis = concat (map (\<lambda>i. to_hex (dis i)) [0..<16])"

definition zero_draws :: "nat \<Rightarrow> nat" where
  \<comment> \<open>A random source whose every draw is 0.\<close>
  "zero_draws i = 0"

definition one_draws :: "nat \<Rightarrow> nat" where
  \<comment> \<open>A random source whose every draw is 1.\<close>
  "one_draws i = 1"

section \<open>The relay's state\<close>

text \<open>
  A \<^verbatim>\<open>pending_request\<close> is immutable after its creation except for the shared state of
  its promise, so the shared pointer to it is modelled by the value together with the
  handle \<open>response_promise\<close> into the store \<open>promises\<close> (\<open>None\<close>: not yet
  satisfied). Sessions are mutable shared objects: the global map \<open>sessions\<close> holds
  addresses into \<open>heap\<close>, as the \<^verbatim>\<open>std::map\<close> holds \<^verbatim>\<open>shared_ptr\<close>s. Instants of
  \<^verbatim>\<open>steady_clock\<close> are natural numbers.
\<close>

record pending_request =
  request_id :: string
  request_data :: json
  response_promise :: nat
  timestamp :: nat

record server_session =
  session_id :: string
  pending_requests :: "pending_request list"
  in_flight_requests :: "(string, pending_request) std_map"
  last_activity :: nat

record relay =
  sessions :: "(string, nat) std_map"
  heap :: "server_session list"
  promises :: "json option list"

definition initial_relay :: relay where
  "initial_relay = \<lparr>sessions = [], heap = [], promises = []\<rparr>"

section \<open>The relay's endpoints\<close>

text \<open>
  Each handler is a function from the request and the relay's state to the HTTP response
  and the new state. What a handler reads from its environment is a parameter: \<open>dis\<close>
  is the random source of \<^verbatim>\<open>generate_id\<close>, \<open>now\<close> the reading of
  \<^verbatim>\<open>steady_clock::now()\<close>, and \<open>n\<close>, for the long poll, the number of iterations
  that the test \<^verbatim>\<open>now() - start < timeout\<close> allows its loop (about 300, of 100 ms
  each, in the window of 30 s). The CORS headers, the same on every response, are left
  out.
\<close>

subsection \<open>\<^verbatim>\<open>POST /register\<close>\<close>

definition insert_session :: "string \<Rightarrow> nat \<Rightarrow> relay \<Rightarrow> relay" where
  \<comment> \<open>\<^verbatim>\<open>make_shared<server_session>()\<close> and \<^verbatim>\<open>sessions[session_id] = session\<close>: an
      equal key is overwritten, the session it named stays on the heap.\<close>
  "insert_session sid now st =
     st\<lparr>sessions := std_map_assign sid (length (heap st)) (sessions st),
        heap := heap st @ [\<lparr>session_id = sid, pending_requests = [],
                            in_flight_requests = [], last_activity = now\<rparr>]\<rparr>"

definition register_handler ::
  "http_request \<Rightarrow> (nat \<Rightarrow> nat) \<Rightarrow> nat \<Rightarrow> relay \<Rightarrow> http_response \<times> relay" where
  "register_handler req dis now st =
     (case body req of
        None \<Rightarrow> (error_reply 400 ''Invalid request'', st)
      | Some request \<Rightarrow>
          let sid = generate_id dis
          in (\<lparr>status = 200,
               content = Some (JObj [(''session_id'', JStr sid),
                                     (''poll_endpoint'', JStr ''/poll''),
                                     (''response_endpoint'', JStr ''/response'')])\<rparr>,
              insert_session sid now st))"

subsection \<open>\<^verbatim>\<open>GET /poll\<close>\<close>

definition dequeue_and_promote :: "server_session \<Rightarrow> pending_request option \<times> server_session" where
  \<comment> \<open>The body of both critical sections of the handler: \<^verbatim>\<open>front\<close>, \<^verbatim>\<open>pop\<close>,
      \<^verbatim>\<open>in_flight_requests[request->request_id] = request\<close>.\<close>
  "dequeue_and_promote s =
     (case pending_requests s of
        [] \<Rightarrow> (None, s)
      | request # rest \<Rightarrow>
          (Some request,
           s\<lparr>pending_requests := rest,
             in_flight_requests :=
               std_map_assign (request_id request) request (in_flight_requests s)\<rparr>))"

fun poll_wait :: "nat \<Rightarrow> nat \<Rightarrow> server_session \<Rightarrow> server_session" where
  \<comment> \<open>The \<^verbatim>\<open>while\<close> loop, run with nobody else touching the session. Its
      \<^verbatim>\<open>request\<close> is declared inside the loop body, so the request it dequeues does
      not leave the loop: only the session does.\<close>
  "poll_wait 0 now s = s"
| "poll_wait (Suc n) now s =
     (case dequeue_and_promote s of
        (Some request, s') \<Rightarrow> s'\<lparr>last_activity := now\<rparr>
      | (None, s') \<Rightarrow> poll_wait n now s')"

definition poll_reply :: "pending_request option \<Rightarrow> http_response" where
  "poll_reply request =
     (case request of
        Some r \<Rightarrow> \<lparr>status = 200,
                   content = Some (JObj [(''request_id'', JStr (request_id r)),
                                         (''request'', request_data r)])\<rparr>
      | None \<Rightarrow> \<lparr>status = 204, content = None\<rparr>)"

definition poll_session ::
  "nat \<Rightarrow> nat \<Rightarrow> server_session \<Rightarrow> pending_request option \<times> server_session" where
  \<comment> \<open>The handler from the loop on: the loop, then the second \<^verbatim>\<open>request\<close>,
      declared after the loop, and its critical section.\<close>
  "poll_session n now s = dequeue_and_promote (poll_wait n now s)"

definition poll_handler :: "http_request \<Rightarrow> nat \<Rightarrow> nat \<Rightarrow> relay \<Rightarrow> http_response \<times> relay" where
  "poll_handler req n now st =
     (case map_of (params req) ''session_id'' of
        None \<Rightarrow> (error_reply 400 ''Missing session_id'', st)
      | Some sid \<Rightarrow>
          (case std_map_find sid (sessions st) of
             None \<Rightarrow> (error_reply 404 ''Session not found'', st)
           | Some a \<Rightarrow>
               (case poll_session n now (heap st ! a) of
                  (request, s') \<Rightarrow> (poll_reply request, st\<lparr>heap := (heap st)[a := s']\<rparr>))))"

text \<open>
  The same handler as a thread that other threads interleave with: one step is one
  passage through a critical section (one acquisition of the session's mutex).
\<close>

datatype poll_pc =
    In_loop nat
  | After_loop
  | Replied "pending_request option"

fun poll_step :: "nat \<Rightarrow> poll_pc \<Rightarrow> server_session \<Rightarrow> poll_pc \<times> server_session" where
  "poll_step now (In_loop 0) s = (After_loop, s)"
| "poll_step now (In_loop (Suc n)) s =
     (case dequeue_and_promote s of
        (Some request, s') \<Rightarrow> (After_loop, s'\<lparr>last_activity := now\<rparr>)
      | (None, s') \<Rightarrow> (In_loop n, s'))"
| "poll_step now After_loop s =
     (case dequeue_and_promote s of (request, s') \<Rightarrow> (Replied request, s'))"
| "poll_step now (Replied request) s = (Replied request, s)"

text \<open>
  Two poll calls on one session: a schedule names, step by step, which of the two
  threads runs next (\<open>False\<close> the first, \<open>True\<close> the second) and what the clock
  reads then.
\<close>

fun two_polls ::
  "(bool \<times> nat) list \<Rightarrow> poll_pc \<times> poll_pc \<times> server_session \<Rightarrow> poll_pc \<times> poll_pc \<times> server_session" where
  "two_polls [] c = c"
| "two_polls ((False, now) # sched) (pc1, pc2, s) =
     (case poll_step now pc1 s of (pc1', s') \<Rightarrow> two_polls sched (pc1', pc2, s'))"
| "two_polls ((True, now) # sched) (pc1, pc2, s) =
     (case poll_step now pc2 s of (pc2', s') \<Rightarrow> two_polls sched (pc1, pc2', s'))"

subsection \<open>\<^verbatim>\<open>POST /response\<close>\<close>

definition take_in_flight ::
  "string \<Rightarrow> nat \<Rightarrow> server_session \<Rightarrow> pending_request option \<times> server_session" where
  \<comment> \<open>The critical section: \<^verbatim>\<open>find\<close>, and when found \<^verbatim>\<open>erase\<close> and the stamp.\<close>
  "take_in_flight rid now s =
     (case std_map_find rid (in_flight_requests s) of
        None \<Rightarrow> (None, s)
      | Some request \<Rightarrow>
          (Some request,
           s\<lparr>in_flight_requests := std_map_erase rid (in_flight_requests s),
             last_activity := now\<rparr>))"

definition set_value :: "nat \<Rightarrow> json \<Rightarrow> json option list \<Rightarrow> json option list option" where
  \<comment> \<open>\<^verbatim>\<open>response_promise.set_value(v)\<close>: throws \<^verbatim>\<open>future_error\<close> (\<open>None\<close>) on a
      promise that is already satisfied. Handles are allocated by \<open>push_request\<close>, so
      a request's handle is in range.\<close>
  "set_value p v ps =
     (if p < length ps \<and> ps ! p = None then Some (ps[p := Some v]) else None)"

definition ok_reply :: http_response where
  "ok_reply = \<lparr>status = 200, content = Some (JObj [(''status'', JStr ''ok'')])\<rparr>"

definition response_handler :: "http_request \<Rightarrow> nat \<Rightarrow> relay \<Rightarrow> http_response \<times> relay" where
  "response_handler req now st =
     (case map_of (params req) ''session_id'' of
        None \<Rightarrow> (error_reply 400 ''Missing session_id'', st)
      | Some sid \<Rightarrow>
          (case std_map_find sid (sessions st) of
             None \<Rightarrow> (error_reply 404 ''Session not found'', st)
           | Some a \<Rightarrow>
               (case body req of
                  None \<Rightarrow> (error_reply 400 ''Invalid response'', st)
                | Some response_data \<Rightarrow>
                    if \<not> contains response_data ''request_id''
                       \<or> \<not> contains response_data ''response''
                    then (error_reply 400 ''Invalid response format'', st)
                    else
                      (case (Option.bind (json_at response_data ''request_id'') get_string,
                             json_at response_data ''response'') of
                         (Some rid, Some response_json) \<Rightarrow>
                           (case take_in_flight rid now (heap st ! a) of
                              (None, s') \<Rightarrow> (ok_reply, st\<lparr>heap := (heap st)[a := s']\<rparr>)
                            | (Some request, s') \<Rightarrow>
                                (case set_value (response_promise request) response_json
                                        (promises st) of
                                   None \<Rightarrow>
                                     (error_reply 400 ''Invalid response'',
                                      st\<lparr>heap := (heap st)[a := s']\<rparr>)
                                 | Some ps \<Rightarrow>
                                     (ok_reply,
                                      st\<lparr>heap := (heap st)[a := s'], promises := ps\<rparr>)))
                       | _ \<Rightarrow> (error_reply 400 ''Invalid response'', st)))))"

subsection \<open>\<^verbatim>\<open>POST /message\<close>\<close>

text \<open>
  The handler blocks on the future between its two halves, and the other handlers run
  meanwhile: \<open>message_enqueue\<close> is the handler up to \<^verbatim>\<open>wait_for\<close>, and
  \<open>message_finish\<close> is the handler from the moment \<^verbatim>\<open>wait_for\<close> returns, in the
  state of that moment. The wait returns \<^verbatim>\<open>ready\<close> when the promise is satisfied and
  \<^verbatim>\<open>timeout\<close> when, 60 s on, it is not.
\<close>

definition push_request :: "nat \<Rightarrow> pending_request \<Rightarrow> relay \<Rightarrow> relay" where
  \<comment> \<open>\<^verbatim>\<open>make_shared<pending_request>()\<close> with its fresh promise, and
      \<^verbatim>\<open>session->pending_requests.push(request)\<close> on the session at address \<open>a\<close>.\<close>
  "push_request a request st =
     st\<lparr>heap := (heap st)[a := (heap st ! a)\<lparr>pending_requests :=
                                   pending_requests (heap st ! a) @ [request]\<rparr>],
        promises := promises st @ [None]\<rparr>"

definition message_enqueue ::
  "http_request \<Rightarrow> (nat \<Rightarrow> nat) \<Rightarrow> nat \<Rightarrow> relay \<Rightarrow> (http_response + pending_request) \<times> relay" where
  "message_enqueue req dis now st =
     (case std_map_begin (sessions st) of
        None \<Rightarrow> (Inl (error_reply 503 ''No MCP servers available''), st)
      | Some (sid, a) \<Rightarrow>
          (case body req of
             None \<Rightarrow> (Inl (error_reply 400 ''Invalid request''), st)
           | Some data \<Rightarrow>
               let request = \<lparr>request_id = generate_id dis, request_data = data,
                               response_promise = length (promises st), timestamp = now\<rparr>
               in (Inr request, push_request a request st)))"

definition message_finish :: "pending_request \<Rightarrow> relay \<Rightarrow> http_response \<times> relay" where
  "message_finish request st =
     (case promises st ! response_promise request of
        Some response \<Rightarrow> (\<lparr>status = 200, content = Some response\<rparr>, st)
      | None \<Rightarrow> (error_reply 504 ''Request timeout'', st))"

section \<open>Request identifiers across the relay's state\<close>

definition queued_ids :: "server_session \<Rightarrow> string list" where
  "queued_ids s = map request_id (pending_requests s)"

definition in_flight_ids :: "server_session \<Rightarrow> string list" where
  "in_flight_ids s = keys (in_flight_requests s)"

definition session_ids :: "server_session \<Rightarrow> string set" where
  "session_ids s = set (queued_ids s) \<union> set (in_flight_ids s)"

definition all_request_ids :: "relay \<Rightarrow> string set" where
  "all_request_ids st = (\<Union>s\<in>set (heap st). session_ids s)"

definition session_separate :: "server_session \<Rightarrow> bool" where
  \<comment> \<open>No identifier twice in the queue, none both in the queue and in flight.\<close>
  "session_separate s \<longleftrightarrow>
     distinct (queued_ids s) \<and> set (queued_ids s) \<inter> set (in_flight_ids s) = {}"

definition request_ids_separate :: "relay \<Rightarrow> bool" where
  \<comment> \<open>The invariant of the data model, over every session object there is.\<close>
  "request_ids_separate st \<longleftrightarrow>
     (\<forall>a<length (heap st). session_separate (heap st ! a)) \<and>
     (\<forall>a<length (heap st). \<forall>b<length (heap st).
        a \<noteq> b \<longrightarrow> session_ids (heap st ! a) \<inter> session_ids (heap st ! b) = {})"

text \<open>
  The states the relay can reach, one critical section at a time, so that every
  interleaving of the handlers' threads is covered. A thread works on the session object
  it has looked up, whatever has become of the global map since. The rule for the
  enqueue carries the one assumption about the random source: the identifier it has
  produced is not in use. The code does not check this.
\<close>

inductive reachable :: "relay \<Rightarrow> bool" where
  initial: "reachable initial_relay"
| register: "reachable st \<Longrightarrow> reachable (insert_session sid now st)"
| enqueue:
    "reachable st \<Longrightarrow> a < length (heap st) \<Longrightarrow> request_id request \<notin> all_request_ids st \<Longrightarrow>
     reachable (push_request a request st)"
| poll_section:
    "reachable st \<Longrightarrow> a < length (heap st) \<Longrightarrow> poll_step now pc (heap st ! a) = (pc', s') \<Longrightarrow>
     reachable (st\<lparr>heap := (heap st)[a := s']\<rparr>)"
| response_section:
    "reachable st \<Longrightarrow> a < length (heap st) \<Longrightarrow> take_in_flight rid now (heap st ! a) = (r, s') \<Longrightarrow>
     reachable (st\<lparr>heap := (heap st)[a := s']\<rparr>)"
| resolve:
    "reachable st \<Longrightarrow> set_value p v (promises st) = Some ps \<Longrightarrow>
     reachable (st\<lparr>promises := ps\<rparr>)"

section \<open>A concrete run\<close>

text \<open>
  One agent registers (every draw of the random source 0), then callers send the same
  ping, with every draw 1 for the first request identifier and every draw 2 for the
  second.
\<close>

definition two_draws :: "nat \<Rightarrow> nat" where
  \<comment> \<open>A random source whose every draw is 2.\<close>
  "two_draws i = 2"

definition ping :: json where
  "ping = JObj [(''jsonrpc'', JStr ''2.0''), (''id'', JInt 1), (''method'', JStr ''ping'')]"

definition pong :: json where
  "pong = JObj [(''pong'', JBool True)]"

definition register_request :: http_request where
  "register_request =
     \<lparr>params = [],
      body = Some (JObj [(''type'', JStr ''mcp_server''), (''timestamp'', JInt 0)])\<rparr>"

definition ping_request :: http_request where
  "ping_request = \<lparr>params = [], body = Some ping\<rparr>"

definition poll_request :: http_request where
  "poll_request = \<lparr>params = [(''session_id'', ''0000000000000000'')], body = None\<rparr>"

definition late_pong_response :: http_request where
  \<comment> \<open>The agent's answer to the second request.\<close>
  "late_pong_response =
     \<lparr>params = [(''session_id'', ''0000000000000000'')],
      body = Some (JObj [(''request_id'', JStr ''2222222222222222''), (''response'', pong)])\<rparr>"

definition pong_response :: http_request where
  "pong_response =
     \<lparr>params = [(''session_id'', ''0000000000000000'')],
      body = Some (JObj [(''request_id'', JStr ''1111111111111111''), (''response'', pong)])\<rparr>"

definition request_1 :: pending_request where
  "request_1 = \<lparr>request_id = ''1111111111111111'', request_data = ping,
                response_promise = 0, timestamp = 1\<rparr>"

definition request_2 :: pending_request where
  "request_2 = \<lparr>request_id = ''2222222222222222'', request_data = ping,
                response_promise = 1, timestamp = 2\<rparr>"

definition relay_registered :: relay where
  "relay_registered = snd (register_handler register_request zero_draws 0 initial_relay)"

definition relay_one_queued :: relay where
  "relay_one_queued = snd (message_enqueue ping_request one_draws 1 relay_registered)"

definition relay_two_queued :: relay where
  "relay_two_queued = snd (message_enqueue ping_request two_draws 2 relay_one_queued)"

definition session_with :: "pending_request list \<Rightarrow> (string, pending_request) std_map \<Rightarrow> nat \<Rightarrow> server_session" where
  "session_with queue index t =
     \<lparr>session_id = ''0000000000000000'', pending_requests = queue,
      in_flight_requests = index, last_activity = t\<rparr>"

section \<open>The reverse agent\<close>

text \<open>
  \<^verbatim>\<open>mcp::reverse_client\<close>. The fields \<^verbatim>\<open>session_id_\<close>, \<^verbatim>\<open>running_\<close>,
  \<^verbatim>\<open>poll_thread_\<close> and \<^verbatim>\<open>config_\<close> lose their trailing underscore;
  \<open>poll_thread\<close> tells whether a thread object has been created. What the agent does
  to the outside is a trace of actions, and what the outside answers is a parameter: the
  reply to an HTTP exchange is \<open>None\<close> when the transport fails (a null
  \<^verbatim>\<open>httplib::Result\<close>), and its \<open>content\<close> is \<open>None\<close> when \<^verbatim>\<open>json::parse\<close>
  throws on the body. The external dispatcher \<^verbatim>\<open>process_request_public\<close> and the
  \<^verbatim>\<open>request\<close> structure of \<^verbatim>\<open>mcp_message.h\<close> are not part of these sources: the
  dispatcher is the parameter \<open>process\<close> (\<open>None\<close> when it throws), and the members
  of a \<^verbatim>\<open>request\<close> that the agent may leave unassigned are options (its member
  \<^verbatim>\<open>method\<close> is \<open>method_name\<close> here).
\<close>

record configuration =
  proxy_url :: string
  register_endpoint :: string
  poll_endpoint :: string
  response_endpoint :: string
  poll_timeout_seconds :: int
  retry_delay_seconds :: int

definition default_configuration :: "string \<Rightarrow> configuration" where
  \<comment> \<open>The default member initialisers of \<^verbatim>\<open>struct configuration\<close>.\<close>
  "default_configuration url =
     \<lparr>proxy_url = url, register_endpoint = ''/register'', poll_endpoint = ''/poll'',
      response_endpoint = ''/response'', poll_timeout_seconds = 30, retry_delay_seconds = 5\<rparr>"

record reverse_client =
  config :: configuration
  client_session_id :: string
  running :: bool
  poll_thread :: bool

datatype action =
    Http_post string json
  | Http_get string
  | Sleep_for int

record mcp_request =
  jsonrpc :: string
  id_opt :: "json option"
  method_name :: string
  params_opt :: "json option"

record poll_env =
  poll_result :: "http_response option"
  send_result :: "http_response option"

definition is_running :: "reverse_client \<Rightarrow> bool" where
  "is_running c = running c"

definition reg_request :: "int \<Rightarrow> json" where
  \<comment> \<open>The registration payload; \<open>now\<close> is the reading of \<^verbatim>\<open>system_clock\<close>.\<close>
  "reg_request now = JObj [(''type'', JStr ''mcp_server''), (''timestamp'', JInt now)]"

definition register_with_proxy ::
  "int \<Rightarrow> http_response option \<Rightarrow> reverse_client \<Rightarrow> bool \<times> reverse_client \<times> action list" where
  "register_with_proxy now reply c =
     (let sent = [Http_post (register_endpoint (config c)) (reg_request now)]
      in case reply of
           None \<Rightarrow> (False, c, sent)
         | Some res \<Rightarrow>
             if status res \<noteq> 200 then (False, c, sent)
             else
               (case content res of
                  None \<Rightarrow> (False, c, sent)
                | Some response \<Rightarrow>
                    if \<not> contains response ''session_id'' then (False, c, sent)
                    else
                      (case Option.bind (json_at response ''session_id'') get_string of
                         None \<Rightarrow> (False, c, sent)
                       | Some sid \<Rightarrow> (True, c\<lparr>client_session_id := sid\<rparr>, sent))))"

definition send_response ::
  "string \<Rightarrow> json \<Rightarrow> http_response option \<Rightarrow> reverse_client \<Rightarrow> bool \<times> action list" where
  "send_response rid response reply c =
     (let response_url = response_endpoint (config c) @ ''?session_id='' @ client_session_id c;
          response_body = JObj [(''request_id'', JStr rid), (''response'', response)];
          sent = [Http_post response_url response_body]
      in case reply of
           None \<Rightarrow> (False, sent)
         | Some res \<Rightarrow> (status res = 200, sent))"

definition parse_mcp_request :: "json \<Rightarrow> mcp_request option" where
  \<comment> \<open>The assignments to \<^verbatim>\<open>mcp_req\<close>; \<open>None\<close> when one of them throws
      \<^verbatim>\<open>json::exception\<close>.\<close>
  "parse_mcp_request request_json =
     (case Option.bind (json_at request_json ''jsonrpc'') get_string of
        None \<Rightarrow> None
      | Some v \<Rightarrow>
          (case Option.bind (json_at request_json ''method'') get_string of
             None \<Rightarrow> None
           | Some m \<Rightarrow>
               Some \<lparr>jsonrpc = v,
                     id_opt = (if contains request_json ''id''
                                  \<and> json_at request_json ''id'' \<noteq> Some JNull
                               then json_at request_json ''id'' else None),
                     method_name = m,
                     params_opt = (if contains request_json ''params''
                                   then json_at request_json ''params'' else None)\<rparr>))"

definition poll_url :: "reverse_client \<Rightarrow> string" where
  "poll_url c = poll_endpoint (config c) @ ''?session_id='' @ client_session_id c"

definition process_poll ::
  "(mcp_request \<Rightarrow> string \<Rightarrow> json option) \<Rightarrow> poll_env \<Rightarrow> reverse_client \<Rightarrow> bool \<times> action list" where
  "process_poll process env c =
     (let sent = [Http_get (poll_url c)]
      in case poll_result env of
           None \<Rightarrow> (False, sent)
         | Some res \<Rightarrow>
             if status res = 204 then (True, sent)
             else if status res \<noteq> 200 then (False, sent)
             else
               (case content res of
                  None \<Rightarrow> (False, sent)
                | Some poll_response \<Rightarrow>
                    if \<not> contains poll_response ''request_id''
                       \<or> \<not> contains poll_response ''request''
                    then (False, sent)
                    else
                      (case (Option.bind (json_at poll_response ''request_id'') get_string,
                             Option.bind (json_at poll_response ''request'') parse_mcp_request) of
                         (Some rid, Some mcp_req) \<Rightarrow>
                           (case process mcp_req (client_session_id c) of
                              None \<Rightarrow> (False, sent)
                            | Some response_json \<Rightarrow>
                                (case send_response rid response_json (send_result env) c of
                                   (ok, sent') \<Rightarrow> (ok, sent @ sent')))
                       | _ \<Rightarrow> (False, sent))))"

text \<open>
  \<^verbatim>\<open>poll_loop\<close> runs while \<^verbatim>\<open>running_\<close> holds, and only another thread's
  \<^verbatim>\<open>stop()\<close> clears that flag. The loop is given the environments of the iterations it
  makes before it sees the flag cleared, one per iteration. \<^verbatim>\<open>process_poll\<close> catches
  every \<^verbatim>\<open>std::exception\<close> itself, so the loop's own handler has nothing to catch.
\<close>

fun poll_loop ::
  "(mcp_request \<Rightarrow> string \<Rightarrow> json option) \<Rightarrow> reverse_client \<Rightarrow> poll_env list \<Rightarrow> action list" where
  "poll_loop process c [] = []"
| "poll_loop process c (env # envs) =
     (case process_poll process env c of
        (True, sent) \<Rightarrow> sent @ poll_loop process c envs
      | (False, sent) \<Rightarrow>
          sent @ [Sleep_for (retry_delay_seconds (config c))] @ poll_loop process c envs)"

definition start ::
  "(mcp_request \<Rightarrow> string \<Rightarrow> json option) \<Rightarrow> bool \<Rightarrow> int \<Rightarrow> http_response option \<Rightarrow>
   poll_env list \<Rightarrow> reverse_client \<Rightarrow> bool \<times> reverse_client \<times> action list" where
  \<comment> \<open>In blocking mode the call returns when the loop does, that is once \<^verbatim>\<open>stop()\<close>
      has cleared \<^verbatim>\<open>running_\<close>; otherwise the loop runs on the new thread and is not
      part of the call's trace.\<close>
  "start process blocking now reply envs c =
     (if running c then (True, c, [])
      else
        (case register_with_proxy now reply c of
           (False, c', sent) \<Rightarrow> (False, c', sent)
         | (True, c', sent) \<Rightarrow>
             if blocking
             then (True, c'\<lparr>running := False\<rparr>,
                   sent @ poll_loop process (c'\<lparr>running := True\<rparr>) envs)
             else (True, c'\<lparr>running := True, poll_thread := True\<rparr>, sent)))"

section \<open>Auxiliary notions for the proofs\<close>

definition registry_wf :: "relay \<Rightarrow> bool" where
  \<comment> \<open>The global map is a \<^verbatim>\<open>std::map\<close> and its pointers are live.\<close>
  "registry_wf st \<longleftrightarrow>
     ordered (sessions st) \<and> (\<forall>ka\<in>set (sessions st). snd ka < length (heap st))"

definition registry_named :: "relay \<Rightarrow> bool" where
  \<comment> \<open>Each key of the global map is the \<^verbatim>\<open>session_id\<close> of the object it points to.\<close>
  "registry_named st \<longleftrightarrow>
     (\<forall>ka\<in>set (sessions st). session_id (heap st ! snd ka) = fst ka)"

definition no_delivery :: "poll_pc \<Rightarrow> bool" where
  \<comment> \<open>The poll thread has not replied with a request.\<close>
  "no_delivery pc = (case pc of Replied (Some r) \<Rightarrow> False | _ \<Rightarrow> True)"

definition request_lost :: "poll_pc \<times> poll_pc \<times> server_session \<Rightarrow> bool" where
  "request_lost c =
     (case c of (pc1, pc2, s) \<Rightarrow> pending_requests s = [] \<and> no_delivery pc1 \<and> no_delivery pc2)"

definition delivered :: "poll_pc \<Rightarrow> pending_request set" where
  \<comment> \<open>The request a poll thread has replied with, if any.\<close>
  "delivered pc = (case pc of Replied (Some r) \<Rightarrow> {r} | _ \<Rightarrow> {})"

definition exclusive :: "poll_pc \<times> poll_pc \<times> server_session \<Rightarrow> bool" where
  \<comment> \<open>What either thread has delivered is no longer queued, and differs from what
      the other has delivered.\<close>
  "exclusive c =
     (case c of (pc1, pc2, s) \<Rightarrow>
        distinct (pending_requests s)
        \<and> delivered pc1 \<inter> set (pending_requests s) = {}
        \<and> delivered pc2 \<inter> set (pending_requests s) = {}
        \<and> delivered pc1 \<inter> delivered pc2 = {})"

section \<open>More of the concrete run\<close>

definition relay_both_in_flight :: relay where
  \<comment> \<open>Two requests are queued and the agent polls: it is handed the second.\<close>
  "relay_both_in_flight = snd (poll_handler poll_request 1 3 relay_two_queued)"

definition relay_first_in_flight :: relay where
  \<comment> \<open>One request is queued and the agent polls.\<close>
  "relay_first_in_flight = snd (poll_handler poll_request 1 3 relay_one_queued)"

definition request_1_again :: pending_request where
  "request_1_again = \<lparr>request_id = ''1111111111111111'', request_data = ping,
                      response_promise = 1, timestamp = 4\<rparr>"

definition relay_same_id_again :: relay where
  \<comment> \<open>The next message draws what the first drew.\<close>
  "relay_same_id_again = snd (message_enqueue ping_request one_draws 4 relay_first_in_flight)"

definition relay_two_sessions :: relay where
  \<comment> \<open>Two agents register; the first is given the greater identifier.\<close>
  "relay_two_sessions =
     snd (register_handler register_request zero_draws 1
            (snd (register_handler register_request one_draws 0 initial_relay)))"

definition new_client :: "string \<Rightarrow> reverse_client" where
  \<comment> \<open>The members as the constructor leaves them, with the default configuration.\<close>
  "new_client url =
     \<lparr>config = default_configuration url, client_session_id = [], running = False,
      poll_thread = False\<rparr>"

definition empty_result_dispatcher :: "mcp_request \<Rightarrow> string \<Rightarrow> json option" where
  "empty_result_dispatcher r sid = Some (JObj [(''jsonrpc'', JStr (jsonrpc r)), (''result'', JObj [])])"

definition no_work_env :: poll_env where
  "no_work_env = \<lparr>poll_result = Some \<lparr>status = 204, content = None\<rparr>, send_result = None\<rparr>"

definition unreachable_env :: poll_env where
  "unreachable_env = \<lparr>poll_result = None, send_result = None\<rparr>"

definition not_found_env :: poll_env where
  "not_found_env =
     \<lparr>poll_result = Some (error_reply 404 ''Session not found''), send_result = None\<rparr>"

section \<open>Properties of the identifier generator\<close>








section \<open>The concrete run, evaluated\<close>

lemma generate_id_zero_draws: "generate_id zero_draws = ''0000000000000000''"
  by (simp add: generate_id_def zero_draws_def to_hex.simps hex_digit_def upt_rec)

lemma generate_id_one_draws: "generate_id one_draws = ''1111111111111111''"
  by (simp add: generate_id_def one_draws_def to_hex.simps hex_digit_def upt_rec)

lemma generate_id_two_draws: "generate_id two_draws = ''2222222222222222''"
  by (simp add: generate_id_def two_draws_def to_hex.simps hex_digit_def upt_rec)

lemma relay_registered_eq:
  "relay_registered =
     \<lparr>sessions = [(''0000000000000000'', 0)], heap = [session_with [] [] 0], promises = []\<rparr>"
  by (simp add: relay_registered_def register_handler_def register_request_def
      generate_id_zero_draws insert_session_def initial_relay_def session_with_def Let_def)

lemma relay_one_queued_eq:
  "relay_one_queued =
     \<lparr>sessions = [(''0000000000000000'', 0)], heap = [session_with [request_1] [] 0],
      promises = [None]\<rparr>"
  by (simp add: relay_one_queued_def relay_registered_eq message_enqueue_def ping_request_def
      generate_id_one_draws push_request_def std_map_begin_def session_with_def request_1_def
      Let_def)

lemma relay_two_queued_eq:
  "relay_two_queued =
     \<lparr>sessions = [(''0000000000000000'', 0)],
      heap = [session_with [request_1, request_2] [] 0], promises = [None, None]\<rparr>"
  by (simp add: relay_two_queued_def relay_one_queued_eq message_enqueue_def ping_request_def
      generate_id_two_draws push_request_def std_map_begin_def session_with_def request_2_def
      Let_def)

lemma relay_both_in_flight_eq:
  "relay_both_in_flight =
     \<lparr>sessions = [(''0000000000000000'', 0)],
      heap = [session_with []
                [(''1111111111111111'', request_1), (''2222222222222222'', request_2)] 3],
      promises = [None, None]\<rparr>"
  by (simp add: relay_both_in_flight_def relay_two_queued_eq poll_handler_def poll_request_def
      std_map_find_def poll_session_def dequeue_and_promote_def session_with_def request_1_def
      request_2_def)

lemma relay_first_in_flight_eq:
  "relay_first_in_flight =
     \<lparr>sessions = [(''0000000000000000'', 0)],
      heap = [session_with [] [(''1111111111111111'', request_1)] 3], promises = [None]\<rparr>"
  by (simp add: relay_first_in_flight_def relay_one_queued_eq poll_handler_def poll_request_def
      std_map_find_def poll_session_def dequeue_and_promote_def session_with_def request_1_def)

lemma relay_same_id_again_eq:
  "relay_same_id_again =
     \<lparr>sessions = [(''0000000000000000'', 0)],
      heap = [session_with [request_1_again] [(''1111111111111111'', request_1)] 3],
      promises = [None, None]\<rparr>"
  by (simp add: relay_same_id_again_def relay_first_in_flight_eq message_enqueue_def
      ping_request_def generate_id_one_draws push_request_def std_map_begin_def session_with_def
      request_1_again_def Let_def)

lemma relay_two_sessions_eq:
  "relay_two_sessions =
     \<lparr>sessions = [(''0000000000000000'', 1), (''1111111111111111'', 0)],
      heap = [\<lparr>session_id = ''1111111111111111'', pending_requests = [],
                in_flight_requests = [], last_activity = 0\<rparr>,
              \<lparr>session_id = ''0000000000000000'', pending_requests = [],
                in_flight_requests = [], last_activity = 1\<rparr>],
      promises = []\<rparr>"
  by (simp add: relay_two_sessions_def register_handler_def register_request_def
      generate_id_zero_draws generate_id_one_draws insert_session_def initial_relay_def Let_def)

section \<open>Properties of \<^verbatim>\<open>std::map\<close>\<close>

lemma keys_assign: "set (keys (std_map_assign k v m)) = insert k (set (keys m))"
  by (induction k v m rule: std_map_assign.induct) (simp_all add: keys_def insert_commute)

lemma entries_assign: "set (std_map_assign k v m) \<subseteq> insert (k, v) (set m)"
  by (induction k v m rule: std_map_assign.induct) auto

lemma ordered_assign: "ordered m \<Longrightarrow> ordered (std_map_assign k v m)"
proof (induction m)
  case Nil
  then show ?case by (simp add: ordered_def keys_def)
next
  case (Cons kv m)
  obtain k' v' where kv: "kv = (k', v')" by (cases kv)
  from Cons.prems have rest: "ordered m" and first: "\<forall>x\<in>set (keys m). k' < x"
    by (auto simp: ordered_def keys_def kv)
  have "set (keys (std_map_assign k v m)) = insert k (set (keys m))" by (rule keys_assign)
  with Cons.IH [OF rest] first Cons.prems show ?case
    by (auto simp: ordered_def keys_def kv)
qed

lemma keys_erase: "set (keys (std_map_erase k m)) = set (keys m) - {k}"
  by (auto simp: keys_def std_map_erase_def)

lemma find_erase: "std_map_find k (std_map_erase k m) = None"
  by (induction m) (auto simp: std_map_find_def std_map_erase_def)

lemma ordered_begin_least:
  assumes "ordered m" and "std_map_begin m = Some (k, v)"
  shows "\<forall>k'\<in>set (keys m). k \<le> k'"
  using assms by (cases m) (auto simp: ordered_def keys_def std_map_begin_def)

section \<open>The long poll\<close>

text \<open>
  What the handler does from the loop on, by the length of the queue and by whether the
  window admits an iteration of the loop. Only a poll whose loop finds the queue empty
  at every iteration, or makes none, returns the request it dequeues.
\<close>

lemma poll_session_empty:
  assumes "pending_requests s = []"
  shows "poll_session n now s = (None, s)"
proof -
  have "poll_wait n now s = s"
    using assms by (induction n) (simp_all add: dequeue_and_promote_def)
  with assms show ?thesis by (simp add: poll_session_def dequeue_and_promote_def)
qed

lemma poll_session_no_iteration:
  assumes "pending_requests s = r # q"
  shows "poll_session 0 now s =
           (Some r, s\<lparr>pending_requests := q,
                      in_flight_requests := std_map_assign (request_id r) r (in_flight_requests s)\<rparr>)"
  using assms by (simp add: poll_session_def dequeue_and_promote_def)

lemma poll_session_one_queued:
  assumes "pending_requests s = [r]"
  shows "poll_session (Suc n) now s =
           (None, s\<lparr>pending_requests := [],
                    in_flight_requests := std_map_assign (request_id r) r (in_flight_requests s),
                    last_activity := now\<rparr>)"
  using assms by (simp add: poll_session_def dequeue_and_promote_def)

lemma poll_session_two_queued:
  assumes "pending_requests s = r1 # r2 # q"
  shows "poll_session (Suc n) now s =
           (Some r2,
            s\<lparr>pending_requests := q,
              in_flight_requests :=
                std_map_assign (request_id r2) r2
                  (std_map_assign (request_id r1) r1 (in_flight_requests s)),
              last_activity := now\<rparr>)"
  using assms by (simp add: poll_session_def dequeue_and_promote_def)

text \<open>
  The thread of \<open>poll_step\<close>, when no other thread touches the session, is the
  handler: after the loop's \<open>n\<close> iterations and two more steps it has replied what
  \<open>poll_session\<close> returns.
\<close>

lemma poll_alone:
  "two_polls (replicate (n + 2) (False, now)) (In_loop n, pc2, s) =
     (Replied (fst (poll_session n now s)), pc2, snd (poll_session n now s))"
proof (induction n arbitrary: s)
  case 0
  then show ?case by (simp add: poll_session_def split: prod.splits)
next
  case (Suc n)
  show ?case
  proof (cases "pending_requests s")
    case Nil
    then have "dequeue_and_promote s = (None, s)" by (simp add: dequeue_and_promote_def)
    then show ?thesis using Suc [of s] by (simp add: poll_session_def)
  next
    case (Cons r q)
    then obtain s' where d: "dequeue_and_promote s = (Some r, s')"
      by (simp add: dequeue_and_promote_def)
    have "two_polls (replicate n (False, now)) (Replied x, pc2, t) = (Replied x, pc2, t)" for x t
      by (induction n) simp_all
    then show ?thesis using d by (simp add: poll_session_def split: prod.splits)
  qed
qed

text \<open>
  C1. A successful poll is to dequeue exactly one request and to return the request it
  moves to the in-flight index. With two requests queued, one call of the handler
  dequeues both: the loop promotes the first into a variable that goes out of scope at
  the \<^verbatim>\<open>break\<close>, and the section after the loop promotes the second and returns it.
  The reply is 200 with the second request; the first is in flight and was returned to
  nobody.
\<close>

theorem poll_dequeues_two_returns_one:
  "poll_handler poll_request 1 3 relay_two_queued =
     (\<lparr>status = 200,
       content = Some (JObj [(''request_id'', JStr ''2222222222222222''), (''request'', ping)])\<rparr>,
      \<lparr>sessions = [(''0000000000000000'', 0)],
       heap = [session_with []
                 [(''1111111111111111'', request_1), (''2222222222222222'', request_2)] 3],
       promises = [None, None]\<rparr>)"
  by (simp add: poll_handler_def poll_request_def relay_two_queued_eq std_map_find_def
      poll_session_def dequeue_and_promote_def session_with_def poll_reply_def request_1_def
      request_2_def)

text \<open>
  C4. A successful poll is to return the oldest request of the queue. In the run above
  the queue holds the request \<open>1111111111111111\<close> before \<open>2222222222222222\<close>, and a
  poll with the whole window ahead of it (300 iterations of 100 ms) returns the younger
  one, \<open>2222222222222222\<close>.
\<close>

theorem poll_returns_younger_request:
  "queued_ids (heap relay_two_queued ! 0) = [''1111111111111111'', ''2222222222222222'']
   \<and> fst (poll_handler poll_request 300 3 relay_two_queued) =
       \<lparr>status = 200,
        content = Some (JObj [(''request_id'', JStr ''2222222222222222''), (''request'', ping)])\<rparr>"
  by (simp add: poll_handler_def poll_request_def relay_two_queued_eq std_map_find_def
      poll_session_def dequeue_and_promote_def session_with_def poll_reply_def request_1_def
      request_2_def queued_ids_def eval_nat_numeral)

text \<open>
  Two polls on one session, interleaved in any way. Once the queue is empty and neither
  thread has replied with a request, that stays so.
\<close>

lemma poll_step_empty:
  "pending_requests s = [] \<Longrightarrow> no_delivery pc \<Longrightarrow> poll_step now pc s = (pc', s') \<Longrightarrow>
   pending_requests s' = [] \<and> no_delivery pc'"
  by (cases "(now, pc, s)" rule: poll_step.cases)
     (auto simp: dequeue_and_promote_def no_delivery_def)

lemma two_polls_lost: "request_lost c \<Longrightarrow> request_lost (two_polls sched c)"
proof (induction sched c rule: two_polls.induct)
  case (1 c)
  then show ?case by simp
next
  case (2 now sched pc1 pc2 s)
  obtain pc1' s' where st: "poll_step now pc1 s = (pc1', s')" by (cases "poll_step now pc1 s")
  with "2.prems" have "request_lost (pc1', pc2, s')"
    using poll_step_empty [of s pc1 now pc1' s'] by (simp add: request_lost_def)
  with "2.IH" st show ?case by simp
next
  case (3 now sched pc1 pc2 s)
  obtain pc2' s' where st: "poll_step now pc2 s = (pc2', s')" by (cases "poll_step now pc2 s")
  with "3.prems" have "request_lost (pc1, pc2', s')"
    using poll_step_empty [of s pc2 now pc2' s'] by (simp add: request_lost_def)
  with "3.IH" st show ?case by simp
qed

lemma two_polls_one_queued:
  assumes "pending_requests s = [r]"
  shows "two_polls sched (In_loop (Suc n), In_loop (Suc m), s) =
           (In_loop (Suc n), In_loop (Suc m), s)
         \<or> request_lost (two_polls sched (In_loop (Suc n), In_loop (Suc m), s))"
proof (cases sched)
  case Nil
  then show ?thesis by simp
next
  case (Cons step sched')
  obtain b now where step: "step = (b, now)" by (cases step)
  have "request_lost (two_polls [(b, now)] (In_loop (Suc n), In_loop (Suc m), s))"
    using assms
    by (cases b) (simp_all add: dequeue_and_promote_def request_lost_def no_delivery_def)
  moreover have "two_polls ((b, now) # sched') (In_loop (Suc n), In_loop (Suc m), s)
      = two_polls sched' (two_polls [(b, now)] (In_loop (Suc n), In_loop (Suc m), s))"
    by (cases b) (simp_all split: prod.splits)
  ultimately show ?thesis using Cons step two_polls_lost by simp
qed

text \<open>
  With exactly one request queued and both polls inside their window, whatever the
  schedule, when both have replied both have replied 204 and the queue is empty.
\<close>

lemma both_polls_miss_the_single_request:
  assumes "pending_requests s = [r]"
    and "two_polls sched (In_loop (Suc n), In_loop (Suc m), s) = (Replied r1, Replied r2, s')"
  shows "r1 = None \<and> r2 = None \<and> pending_requests s' = []"
proof -
  from two_polls_one_queued [OF assms(1), of sched n m] assms(2)
  have "request_lost (Replied r1, Replied r2, s')" by auto
  then show ?thesis
    by (auto simp: request_lost_def no_delivery_def split: option.splits)
qed

text \<open>
  The half of the mutual exclusion that does hold: the two polls never reply with the
  same queued request, whatever the schedule.
\<close>

lemma poll_step_exclusive:
  assumes "poll_step now pc s = (pc', s')" and "distinct (pending_requests s)"
    and "delivered pc \<inter> set (pending_requests s) = {}"
  shows "distinct (pending_requests s')
       \<and> set (pending_requests s') \<subseteq> set (pending_requests s)
       \<and> delivered pc' \<inter> set (pending_requests s') = {}
       \<and> delivered pc' \<subseteq> delivered pc \<union> (set (pending_requests s) - set (pending_requests s'))"
  using assms
  by (cases "(now, pc, s)" rule: poll_step.cases)
     (auto simp: dequeue_and_promote_def delivered_def split: list.splits)

lemma two_polls_exclusive: "exclusive c \<Longrightarrow> exclusive (two_polls sched c)"
proof (induction sched c rule: two_polls.induct)
  case (1 c)
  then show ?case by simp
next
  case (2 now sched pc1 pc2 s)
  obtain pc1' s' where st: "poll_step now pc1 s = (pc1', s')" by (cases "poll_step now pc1 s")
  from "2.prems" have "exclusive (pc1', pc2, s')"
    using poll_step_exclusive [OF st] unfolding exclusive_def by (auto; blast)
  with "2.IH" st show ?case by simp
next
  case (3 now sched pc1 pc2 s)
  obtain pc2' s' where st: "poll_step now pc2 s = (pc2', s')" by (cases "poll_step now pc2 s")
  from "3.prems" have "exclusive (pc1, pc2', s')"
    using poll_step_exclusive [OF st] unfolding exclusive_def by (auto; blast)
  with "3.IH" st show ?case by simp
qed

lemma polls_deliver_distinct_requests:
  assumes "distinct (pending_requests s)"
    and "two_polls sched (In_loop n, In_loop m, s)
           = (Replied (Some r1), Replied (Some r2), s')"
  shows "r1 \<noteq> r2"
proof -
  have "exclusive (In_loop n, In_loop m, s)"
    using assms(1) by (simp add: exclusive_def delivered_def)
  from two_polls_exclusive [OF this, of sched] assms(2)
  show ?thesis by (simp add: exclusive_def delivered_def)
qed

text \<open>
  C6. Of two concurrent polls on a session with exactly one queued request, exactly one
  is to receive it. Here the two threads alternate, the first ahead: the first
  dequeues the request inside its loop and loses it, the second finds the queue empty,
  and both reply with no request (204). The request sits in the in-flight index,
  delivered to neither.
\<close>

theorem concurrent_polls_both_empty:
  "two_polls [(False, 3), (True, 4), (False, 5), (True, 6), (False, 7), (True, 8)]
     (In_loop 1, In_loop 1, session_with [request_1] [] 0) =
     (Replied None, Replied None, session_with [] [(''1111111111111111'', request_1)] 3)"
  by (simp add: dequeue_and_promote_def session_with_def request_1_def)

section \<open>Responses and timeouts\<close>

text \<open>
  C5. A response submitted on a known session for a request identifier that is not in
  the in-flight index (never issued, already answered, or not yet picked up) is
  answered 200 with \<open>{"status":"ok"}\<close>, and the relay's whole state is what it was:
  every queue, every in-flight index, every stamp and every promise. The body is
  well-formed: an object with a string \<open>request_id\<close> and a \<open>response\<close>.
\<close>

theorem response_not_in_flight_changes_nothing:
  assumes "map_of (params req) ''session_id'' = Some sid"
    and "std_map_find sid (sessions st) = Some a"
    and "body req = Some (JObj members)"
    and "map_of members ''request_id'' = Some (JStr rid)"
    and "map_of members ''response'' = Some response_json"
    and "std_map_find rid (in_flight_requests (heap st ! a)) = None"
  shows "response_handler req now st =
           (\<lparr>status = 200, content = Some (JObj [(''status'', JStr ''ok'')])\<rparr>, st)"
  using assms
  by (simp add: response_handler_def contains_def json_at_def get_string_def take_in_flight_def
      ok_reply_def)

theorem response_not_in_flight_changes_nothing_witness:
  "response_handler pong_response 70 relay_one_queued =
     (\<lparr>status = 200, content = Some (JObj [(''status'', JStr ''ok'')])\<rparr>, relay_one_queued)"
proof -
  have "map_of (params pong_response) ''session_id'' = Some ''0000000000000000''"
    and "std_map_find ''0000000000000000'' (sessions relay_one_queued) = Some 0"
    and "body pong_response
           = Some (JObj [(''request_id'', JStr ''1111111111111111''), (''response'', pong)])"
    and "map_of [(''request_id'', JStr ''1111111111111111''), (''response'', pong)] ''request_id''
           = Some (JStr ''1111111111111111'')"
    and "map_of [(''request_id'', JStr ''1111111111111111''), (''response'', pong)] ''response''
           = Some pong"
    and "std_map_find ''1111111111111111'' (in_flight_requests (heap relay_one_queued ! 0)) = None"
    by (simp_all add: pong_response_def relay_one_queued_eq std_map_find_def session_with_def)
  then show ?thesis by (rule response_not_in_flight_changes_nothing)
qed

text \<open>
  After a response has taken a request out of the in-flight index, the same response
  again finds nothing there.
\<close>

lemma take_in_flight_once:
  assumes "take_in_flight rid now s = (Some request, s')"
  shows "take_in_flight rid now' s' = (None, s')"
  using assms by (auto simp: take_in_flight_def find_erase split: option.splits)

text \<open>
  C2 (as amended). When the wait of the message endpoint times out, the caller is
  answered 504 with \<open>{"error":"Request timeout"}\<close> and the relay's state is left as
  it is: the request is not removed from the in-flight index. A response that arrives
  afterwards for a request that a poll has moved to the in-flight index therefore finds
  it there: the handler removes it then, satisfies its promise, which nobody waits on
  any more, and answers 200 with \<open>{"status":"ok"}\<close>.
\<close>

theorem message_timeout_keeps_request_in_flight:
  assumes "promises st ! response_promise request = None"
    and "response_promise request < length (promises st)"
    and "map_of (params req) ''session_id'' = Some sid"
    and "std_map_find sid (sessions st) = Some a"
    and "body req = Some (JObj members)"
    and "map_of members ''request_id'' = Some (JStr rid)"
    and "map_of members ''response'' = Some response_json"
    and "std_map_find rid (in_flight_requests (heap st ! a)) = Some request"
  shows "message_finish request st =
           (\<lparr>status = 504, content = Some (JObj [(''error'', JStr ''Request timeout'')])\<rparr>, st)
       \<and> response_handler req now (snd (message_finish request st)) =
           (\<lparr>status = 200, content = Some (JObj [(''status'', JStr ''ok'')])\<rparr>,
            st\<lparr>heap := (heap st)[a := (heap st ! a)
                          \<lparr>in_flight_requests := std_map_erase rid (in_flight_requests (heap st ! a)),
                           last_activity := now\<rparr>],
               promises := (promises st)[response_promise request := Some response_json]\<rparr>)"
proof -
  have timeout: "message_finish request st =
           (\<lparr>status = 504, content = Some (JObj [(''error'', JStr ''Request timeout'')])\<rparr>, st)"
    using assms(1) by (simp add: message_finish_def error_reply_def)
  have "response_handler req now st =
           (\<lparr>status = 200, content = Some (JObj [(''status'', JStr ''ok'')])\<rparr>,
            st\<lparr>heap := (heap st)[a := (heap st ! a)
                          \<lparr>in_flight_requests := std_map_erase rid (in_flight_requests (heap st ! a)),
                           last_activity := now\<rparr>],
               promises := (promises st)[response_promise request := Some response_json]\<rparr>)"
    using assms
    by (simp add: response_handler_def contains_def json_at_def get_string_def
        take_in_flight_def set_value_def ok_reply_def)
  with timeout show ?thesis by simp
qed

theorem message_timeout_keeps_request_in_flight_witness:
  "message_finish request_2 relay_both_in_flight
     = (\<lparr>status = 504, content = Some (JObj [(''error'', JStr ''Request timeout'')])\<rparr>,
        relay_both_in_flight)
   \<and> response_handler late_pong_response 70 (snd (message_finish request_2 relay_both_in_flight)) =
       (\<lparr>status = 200, content = Some (JObj [(''status'', JStr ''ok'')])\<rparr>,
        \<lparr>sessions = [(''0000000000000000'', 0)],
         heap = [session_with [] [(''1111111111111111'', request_1)] 70],
         promises = [None, Some pong]\<rparr>)"
proof -
  have "promises relay_both_in_flight ! response_promise request_2 = None"
    and "response_promise request_2 < length (promises relay_both_in_flight)"
    and "map_of (params late_pong_response) ''session_id'' = Some ''0000000000000000''"
    and "std_map_find ''0000000000000000'' (sessions relay_both_in_flight) = Some 0"
    and "body late_pong_response
           = Some (JObj [(''request_id'', JStr ''2222222222222222''), (''response'', pong)])"
    and "map_of [(''request_id'', JStr ''2222222222222222''), (''response'', pong)] ''request_id''
           = Some (JStr ''2222222222222222'')"
    and "map_of [(''request_id'', JStr ''2222222222222222''), (''response'', pong)] ''response''
           = Some pong"
    and "std_map_find ''2222222222222222'' (in_flight_requests (heap relay_both_in_flight ! 0))
           = Some request_2"
    by (simp_all add: relay_both_in_flight_eq late_pong_response_def request_2_def
        std_map_find_def session_with_def)
  note run = message_timeout_keeps_request_in_flight [OF this, of 70]
  have after:
    "relay_both_in_flight
       \<lparr>heap := (heap relay_both_in_flight)[0 := (heap relay_both_in_flight ! 0)
                 \<lparr>in_flight_requests :=
                    std_map_erase ''2222222222222222''
                      (in_flight_requests (heap relay_both_in_flight ! 0)),
                  last_activity := 70\<rparr>],
        promises := (promises relay_both_in_flight)[response_promise request_2 := Some pong]\<rparr>
     = \<lparr>sessions = [(''0000000000000000'', 0)],
        heap = [session_with [] [(''1111111111111111'', request_1)] 70],
        promises = [None, Some pong]\<rparr>"
    by (simp add: relay_both_in_flight_eq session_with_def std_map_erase_def request_2_def)
  from run [unfolded after] show ?thesis .
qed

text \<open>
  C2 (counterexample). The agent has been handed the request \<open>2222222222222222\<close>
  and takes more than 60 s over it. The caller's wait times out: the caller is
  answered 504, and in the state the handler leaves, the request is still in the
  in-flight index. The agent's late response does not find it absent: it finds it,
  removes it and satisfies its promise.
\<close>

theorem message_timeout_does_not_remove:
  "fst (message_finish request_2 relay_both_in_flight) =
       \<lparr>status = 504, content = Some (JObj [(''error'', JStr ''Request timeout'')])\<rparr>
   \<and> std_map_find ''2222222222222222''
        (in_flight_requests (heap (snd (message_finish request_2 relay_both_in_flight)) ! 0))
       = Some request_2
   \<and> promises (snd (response_handler late_pong_response 70
                      (snd (message_finish request_2 relay_both_in_flight))))
       = [None, Some pong]"
  by (simp add: message_finish_def relay_both_in_flight_eq request_2_def session_with_def
      std_map_find_def response_handler_def late_pong_response_def contains_def json_at_def
      get_string_def take_in_flight_def set_value_def error_reply_def)

section \<open>Request identifiers stay separate\<close>

lemma session_ids_promote:
  assumes "dequeue_and_promote s = (r, s')"
  shows "session_ids s' = session_ids s"
  using assms
  by (cases "pending_requests s")
     (auto simp: dequeue_and_promote_def session_ids_def queued_ids_def in_flight_ids_def
        keys_assign)

lemma separate_promote:
  assumes "dequeue_and_promote s = (r, s')" and "session_separate s"
  shows "session_separate s'"
proof (cases "pending_requests s")
  case Nil
  with assms show ?thesis by (simp add: dequeue_and_promote_def)
next
  case (Cons x q)
  with assms(1) have q: "queued_ids s' = map request_id q"
    and f: "set (in_flight_ids s') = insert (request_id x) (set (in_flight_ids s))"
    by (auto simp: dequeue_and_promote_def queued_ids_def in_flight_ids_def keys_assign)
  from Cons assms(2) have "distinct (request_id x # map request_id q)"
    and "set (request_id x # map request_id q) \<inter> set (in_flight_ids s) = {}"
    by (simp_all add: session_separate_def queued_ids_def)
  then show ?thesis unfolding session_separate_def q f by auto
qed

lemma session_ids_stamp [simp]: "session_ids (s\<lparr>last_activity := t\<rparr>) = session_ids s"
  by (simp add: session_ids_def queued_ids_def in_flight_ids_def)

lemma separate_stamp [simp]: "session_separate (s\<lparr>last_activity := t\<rparr>) = session_separate s"
  by (simp add: session_separate_def queued_ids_def in_flight_ids_def)

lemma poll_step_ids:
  assumes "poll_step now pc s = (pc', s')"
  shows "session_ids s' = session_ids s \<and> (session_separate s \<longrightarrow> session_separate s')"
  using assms
  by (cases "(now, pc, s)" rule: poll_step.cases)
     (auto split: prod.splits option.splits dest: session_ids_promote separate_promote)

lemma take_in_flight_ids:
  assumes "take_in_flight rid now s = (r, s')"
  shows "session_ids s' \<subseteq> session_ids s \<and> (session_separate s \<longrightarrow> session_separate s')"
proof -
  have "queued_ids s' = queued_ids s" and "set (in_flight_ids s') \<subseteq> set (in_flight_ids s)"
    using assms
    by (auto simp: take_in_flight_def queued_ids_def in_flight_ids_def keys_erase
        split: option.splits)
  then show ?thesis unfolding session_ids_def session_separate_def by auto
qed

lemma separate_update:
  assumes "request_ids_separate st" and "a < length (heap st)"
    and "session_ids s' \<subseteq> session_ids (heap st ! a)"
    and "session_separate s'"
  shows "request_ids_separate (st\<lparr>heap := (heap st)[a := s']\<rparr>)"
  using assms unfolding request_ids_separate_def
  by (auto simp: nth_list_update) blast+

lemma separate_push:
  assumes inv: "request_ids_separate st" and a: "a < length (heap st)"
    and fresh: "request_id request \<notin> all_request_ids st"
  shows "request_ids_separate (push_request a request st)"
proof -
  let ?s = "heap st ! a"
  let ?s' = "?s\<lparr>pending_requests := pending_requests ?s @ [request]\<rparr>"
  have nowhere: "request_id request \<notin> session_ids (heap st ! b)" if "b < length (heap st)" for b
    using fresh that by (auto simp: all_request_ids_def)
  have ids: "session_ids ?s' = insert (request_id request) (session_ids ?s)"
    by (auto simp: session_ids_def queued_ids_def in_flight_ids_def)
  have sep: "session_separate ?s'"
    using inv a nowhere [OF a]
    by (auto simp: request_ids_separate_def session_separate_def session_ids_def queued_ids_def
        in_flight_ids_def)
  show ?thesis
    using inv a nowhere ids sep unfolding request_ids_separate_def push_request_def
    by (auto simp: nth_list_update)
qed

lemma separate_insert_session:
  assumes "request_ids_separate st"
  shows "request_ids_separate (insert_session sid now st)"
  using assms unfolding request_ids_separate_def insert_session_def
  by (auto simp: nth_append session_separate_def session_ids_def queued_ids_def
      in_flight_ids_def keys_def)

text \<open>
  Every reachable state has a well-formed global map, and every handler leads from
  reachable states to reachable states: the long poll as the steps of its thread, the
  response as its critical section followed by the promise, the message as the enqueue
  of a request whose identifier is not in use.
\<close>

lemma reachable_wf: "reachable st \<Longrightarrow> registry_wf st"
proof (induction rule: reachable.induct)
  case initial
  then show ?case by (simp add: registry_wf_def initial_relay_def ordered_def keys_def)
next
  case (register st sid now)
  then show ?case
    using entries_assign [of sid "length (heap st)" "sessions st"]
    by (fastforce simp: registry_wf_def insert_session_def ordered_assign less_Suc_eq)
next
  case (enqueue st a request)
  then show ?case by (simp add: registry_wf_def push_request_def)
next
  case (poll_section st a now pc pc' s')
  then show ?case by (simp add: registry_wf_def)
next
  case (response_section st a rid now r s')
  then show ?case by (simp add: registry_wf_def)
next
  case (resolve st p v ps)
  then show ?case by (simp add: registry_wf_def)
qed

lemma find_in_range:
  assumes "registry_wf st" and "std_map_find sid (sessions st) = Some a"
  shows "a < length (heap st)"
proof -
  from assms(2) have "(sid, a) \<in> set (sessions st)"
    by (simp add: std_map_find_def map_of_SomeD)
  with assms(1) show ?thesis by (auto simp: registry_wf_def)
qed

lemma begin_in_range:
  assumes "registry_wf st" and "std_map_begin (sessions st) = Some (sid, a)"
  shows "a < length (heap st)"
  using assms by (cases "sessions st") (auto simp: registry_wf_def std_map_begin_def)

lemma reachable_poll_wait:
  assumes "reachable st" and "a < length (heap st)"
  shows "reachable (st\<lparr>heap := (heap st)[a := poll_wait n now (heap st ! a)]\<rparr>)"
proof (induction n)
  case 0
  from assms(1) show ?case by simp
next
  case (Suc n)
  show ?case
  proof (cases "dequeue_and_promote (heap st ! a)")
    case (Pair r s')
    show ?thesis
    proof (cases r)
      case None
      with Pair have "s' = heap st ! a"
        by (auto simp: dequeue_and_promote_def split: list.splits)
      with Pair None Suc show ?thesis by simp
    next
      case (Some x)
      with Pair have "poll_step now (In_loop (Suc n)) (heap st ! a)
          = (After_loop, s'\<lparr>last_activity := now\<rparr>)"
        by simp
      from reachable.poll_section [OF assms this] Pair Some show ?thesis by simp
    qed
  qed
qed

lemma reachable_poll_handler:
  assumes "reachable st"
  shows "reachable (snd (poll_handler req n now st))"
proof (cases "map_of (params req) ''session_id''")
  case None
  with assms show ?thesis by (simp add: poll_handler_def)
next
  case (Some sid)
  show ?thesis
  proof (cases "std_map_find sid (sessions st)")
    case None
    with Some assms show ?thesis by (simp add: poll_handler_def)
  next
    case found: (Some a)
    have a: "a < length (heap st)"
      using find_in_range [OF reachable_wf [OF assms] found] .
    let ?st1 = "st\<lparr>heap := (heap st)[a := poll_wait n now (heap st ! a)]\<rparr>"
    have r1: "reachable ?st1" using reachable_poll_wait [OF assms a] .
    obtain r s' where d: "dequeue_and_promote (poll_wait n now (heap st ! a)) = (r, s')"
      by (cases "dequeue_and_promote (poll_wait n now (heap st ! a))")
    have "poll_step now After_loop (heap ?st1 ! a) = (Replied r, s')"
      using a d by simp
    from reachable.poll_section [OF r1 _ this] a
    have "reachable (st\<lparr>heap := (heap st)[a := s']\<rparr>)" by simp
    with Some found d show ?thesis by (simp add: poll_handler_def poll_session_def)
  qed
qed

lemma reachable_register_handler:
  assumes "reachable st"
  shows "reachable (snd (register_handler req dis now st))"
  using assms
  by (auto simp: register_handler_def Let_def intro: reachable.register split: option.splits)

lemma reachable_message_enqueue:
  assumes "reachable st" and "generate_id dis \<notin> all_request_ids st"
  shows "reachable (snd (message_enqueue req dis now st))"
  using assms begin_in_range [OF reachable_wf [OF assms(1)]]
  by (auto simp: message_enqueue_def Let_def intro!: reachable.enqueue split: option.splits)

lemma reachable_message_finish:
  assumes "reachable st"
  shows "reachable (snd (message_finish request st))"
  using assms by (simp add: message_finish_def split: option.splits)

lemma reachable_response_handler:
  assumes "reachable st"
  shows "reachable (snd (response_handler req now st))"
proof -
  have upd: "reachable (st\<lparr>heap := (heap st)[a := s']\<rparr>)"
    if "std_map_find sid (sessions st) = Some a"
      and "take_in_flight rid now (heap st ! a) = (r, s')"
    for sid a rid r s'
    using reachable.response_section
      [OF assms find_in_range [OF reachable_wf [OF assms] that(1)] that(2)] .
  have res: "reachable (st\<lparr>heap := (heap st)[a := s'], promises := ps\<rparr>)"
    if "std_map_find sid (sessions st) = Some a"
      and "take_in_flight rid now (heap st ! a) = (r, s')"
      and "set_value p v (promises st) = Some ps"
    for sid a rid r s' p v ps
    using reachable.resolve [OF upd [OF that(1,2)], of p v ps] that(3) by simp
  show ?thesis
    using assms upd res
    by (auto simp: response_handler_def split: option.splits prod.splits if_splits)
qed

lemma reachable_relay_two_queued: "reachable relay_two_queued"
proof -
  have r0: "reachable relay_registered"
    unfolding relay_registered_def by (rule reachable_register_handler) (rule reachable.initial)
  have "generate_id one_draws \<notin> all_request_ids relay_registered"
    by (simp add: relay_registered_eq all_request_ids_def session_ids_def queued_ids_def
        in_flight_ids_def keys_def session_with_def)
  then have r1: "reachable relay_one_queued"
    unfolding relay_one_queued_def by (rule reachable_message_enqueue [OF r0])
  have "generate_id two_draws \<notin> all_request_ids relay_one_queued"
    by (simp add: relay_one_queued_eq all_request_ids_def session_ids_def queued_ids_def
        in_flight_ids_def keys_def session_with_def generate_id_two_draws request_1_def)
  then show ?thesis
    unfolding relay_two_queued_def by (rule reachable_message_enqueue [OF r1])
qed

text \<open>
  C7 (as amended). Provided that each request identifier the generator returns is, at
  the moment of its enqueue, in no queue and in no in-flight index of any session, every
  state the relay reaches keeps the identifiers separate: within a session no identifier
  is twice in the queue and none is both in the queue and in the in-flight index, and
  no identifier is in two sessions. The enqueue, the dequeue-and-promote of a poll
  (either of its two) and the removal by a response all preserve this, under every
  interleaving of the handlers.
\<close>

theorem reachable_request_ids_separate: "reachable st \<Longrightarrow> request_ids_separate st"
proof (induction rule: reachable.induct)
  case initial
  then show ?case by (simp add: request_ids_separate_def initial_relay_def)
next
  case (register st sid now)
  then show ?case by (simp add: separate_insert_session)
next
  case (enqueue st a request)
  then show ?case by (simp add: separate_push)
next
  case (poll_section st a now pc pc' s')
  then show ?case using poll_step_ids [of now pc "heap st ! a" pc' s']
    by (intro separate_update) (auto simp: request_ids_separate_def)
next
  case (response_section st a rid now r s')
  then show ?case using take_in_flight_ids [of rid now "heap st ! a" r s']
    by (intro separate_update) (auto simp: request_ids_separate_def)
next
  case (resolve st p v ps)
  then show ?case by (simp add: request_ids_separate_def)
qed

theorem reachable_request_ids_separate_witness: "request_ids_separate relay_two_queued"
  using reachable_relay_two_queued by (rule reachable_request_ids_separate)

text \<open>
  C7 (counterexample). Nothing keeps the generator from returning an identifier twice.
  The request \<open>1111111111111111\<close> has been moved to the in-flight index by a poll
  when the next message draws the same sixteen digits: the identifier is then in the
  queue and in the in-flight index of the session at once.
\<close>

theorem same_id_in_queue_and_in_flight:
  "''1111111111111111'' \<in> set (queued_ids (heap relay_same_id_again ! 0))
   \<and> ''1111111111111111'' \<in> set (in_flight_ids (heap relay_same_id_again ! 0))
   \<and> \<not> request_ids_separate relay_same_id_again"
  by (simp add: relay_same_id_again_eq queued_ids_def in_flight_ids_def keys_def
      session_with_def request_1_again_def request_ids_separate_def session_separate_def)

section \<open>Routing of messages\<close>

text \<open>
  In every reachable state a key of the global map names the session object it points
  to: the handlers never assign \<^verbatim>\<open>session_id\<close> after the registration.
\<close>

lemma poll_step_session_id:
  "poll_step now pc s = (pc', s') \<Longrightarrow> session_id s' = session_id s"
  by (cases "(now, pc, s)" rule: poll_step.cases)
     (auto simp: dequeue_and_promote_def split: list.splits)

lemma take_in_flight_session_id:
  "take_in_flight rid now s = (r, s') \<Longrightarrow> session_id s' = session_id s"
  by (auto simp: take_in_flight_def split: option.splits)

lemma named_update:
  assumes "registry_named st" and "session_id s' = session_id (heap st ! a)"
  shows "registry_named (st\<lparr>heap := (heap st)[a := s']\<rparr>)"
proof (cases "a < length (heap st)")
  case True
  with assms show ?thesis
    unfolding registry_named_def by (fastforce simp: nth_list_update)
next
  case False
  then have "length (heap st) \<le> a" by (simp add: not_less)
  then have "(heap st)[a := s'] = heap st" by (rule list_update_beyond)
  with assms(1) show ?thesis by (simp add: registry_named_def)
qed

lemma reachable_named: "reachable st \<Longrightarrow> registry_named st"
proof (induction rule: reachable.induct)
  case initial
  then show ?case by (simp add: registry_named_def initial_relay_def)
next
  case (register st sid now)
  have wf: "registry_wf st" using register.hyps by (rule reachable_wf)
  show ?case unfolding registry_named_def insert_session_def
  proof (simp, intro ballI)
    fix ka assume "ka \<in> set (std_map_assign sid (length (heap st)) (sessions st))"
    with entries_assign [of sid "length (heap st)" "sessions st"]
    have "ka = (sid, length (heap st)) \<or> ka \<in> set (sessions st)" by auto
    then show "session_id ((heap st @ [\<lparr>session_id = sid, pending_requests = [],
          in_flight_requests = [], last_activity = now\<rparr>]) ! snd ka) = fst ka"
    proof
      assume "ka = (sid, length (heap st))"
      then show ?thesis by simp
    next
      assume k: "ka \<in> set (sessions st)"
      with wf have "snd ka < length (heap st)" by (simp add: registry_wf_def)
      with k register.IH show ?thesis by (simp add: registry_named_def nth_append)
    qed
  qed
next
  case (enqueue st a request)
  then show ?case unfolding push_request_def
    using named_update [of st "(heap st ! a)\<lparr>pending_requests :=
                                 pending_requests (heap st ! a) @ [request]\<rparr>" a]
    by (simp add: registry_named_def)
next
  case (poll_section st a now pc pc' s')
  then show ?case by (intro named_update) (auto dest: poll_step_session_id)
next
  case (response_section st a rid now r s')
  then show ?case by (intro named_update) (auto dest: take_in_flight_session_id)
next
  case (resolve st p v ps)
  then show ?case by (simp add: registry_named_def)
qed

text \<open>
  C10. With at least one session registered, the message endpoint takes the first entry
  of the ordered global map, whose key is the least session identifier in the
  lexicographic order of \<^verbatim>\<open>std::string\<close>, and whose session object bears that
  identifier. For a body that parses, the new request is appended to the queue of that
  very object; every other session object is what it was, the global map too, and the
  promise store has grown by the request's unsatisfied promise. Which session is
  chosen depends on the map alone. The endpoint does not answer 503 then: before the
  wait it can only answer 400, for a body that does not parse, and after the wait 200
  or 504. The global map is a well-formed \<^verbatim>\<open>std::map\<close> of live pointers, as it is
  in every reachable state.
\<close>

theorem message_routes_to_least_session_id:
  assumes "registry_wf st" and "registry_named st" and "sessions st \<noteq> []"
  shows "\<exists>sid a. std_map_begin (sessions st) = Some (sid, a)
           \<and> (\<forall>k\<in>set (keys (sessions st)). sid \<le> k)
           \<and> a < length (heap st)
           \<and> session_id (heap st ! a) = sid
           \<and> (\<forall>data. body req = Some data \<longrightarrow>
                 (let request = \<lparr>request_id = generate_id dis, request_data = data,
                                  response_promise = length (promises st), timestamp = now\<rparr>;
                      st' = snd (message_enqueue req dis now st)
                  in fst (message_enqueue req dis now st) = Inr request
                     \<and> sessions st' = sessions st
                     \<and> length (heap st') = length (heap st)
                     \<and> heap st' ! a =
                         (heap st ! a)\<lparr>pending_requests :=
                                          pending_requests (heap st ! a) @ [request]\<rparr>
                     \<and> (\<forall>b<length (heap st). b \<noteq> a \<longrightarrow> heap st' ! b = heap st ! b)
                     \<and> promises st' = promises st @ [None]))
           \<and> (\<forall>res. fst (message_enqueue req dis now st) = Inl res \<longrightarrow> status res = 400)
           \<and> (\<forall>request st'. status (fst (message_finish request st')) \<in> {200, 504})"
proof -
  from assms(3) obtain sid a m where m: "sessions st = (sid, a) # m"
    by (cases "sessions st") auto
  then have b: "std_map_begin (sessions st) = Some (sid, a)" by (simp add: std_map_begin_def)
  from assms(1) have o: "ordered (sessions st)" by (simp add: registry_wf_def)
  have least: "\<forall>k\<in>set (keys (sessions st)). sid \<le> k"
    using ordered_begin_least [OF o b] .
  have a: "a < length (heap st)" using begin_in_range [OF assms(1) b] .
  have named: "session_id (heap st ! a) = sid"
    using assms(2) m by (simp add: registry_named_def)
  have fin: "status (fst (message_finish request st')) \<in> {200, 504}" for request st'
    by (simp add: message_finish_def error_reply_def split: option.splits)
  show ?thesis
    using b least a named fin
    by (auto simp: message_enqueue_def push_request_def error_reply_def Let_def
        split: option.splits)
qed

theorem message_routes_to_least_session_id_witness:
  "std_map_begin (sessions relay_two_sessions) = Some (''0000000000000000'', 1)
   \<and> message_enqueue ping_request two_draws 5 relay_two_sessions =
       (Inr \<lparr>request_id = ''2222222222222222'', request_data = ping,
             response_promise = 0, timestamp = 5\<rparr>,
        \<lparr>sessions = [(''0000000000000000'', 1), (''1111111111111111'', 0)],
         heap = [\<lparr>session_id = ''1111111111111111'', pending_requests = [],
                   in_flight_requests = [], last_activity = 0\<rparr>,
                 \<lparr>session_id = ''0000000000000000'',
                   pending_requests = [\<lparr>request_id = ''2222222222222222'', request_data = ping,
                                         response_promise = 0, timestamp = 5\<rparr>],
                   in_flight_requests = [], last_activity = 1\<rparr>],
         promises = [None]\<rparr>)"
proof -
  let ?st = relay_two_sessions
  let ?r = "\<lparr>request_id = ''2222222222222222'', request_data = ping,
             response_promise = 0, timestamp = 5\<rparr>"
  have wf: "registry_wf ?st"
    by (simp add: relay_two_sessions_eq registry_wf_def ordered_def keys_def)
  have nm: "registry_named ?st"
    by (simp add: relay_two_sessions_eq registry_named_def)
  have ne: "sessions ?st \<noteq> []"
    by (simp add: relay_two_sessions_eq)
  have b: "std_map_begin (sessions ?st) = Some (''0000000000000000'', 1)"
    by (simp add: relay_two_sessions_eq std_map_begin_def)
  have p: "body ping_request = Some ping" "promises ?st = []"
    by (simp_all add: ping_request_def relay_two_sessions_eq)
  obtain res st' where e: "message_enqueue ping_request two_draws 5 ?st = (res, st')"
    by (cases "message_enqueue ping_request two_draws 5 ?st")
  from message_routes_to_least_session_id [OF wf nm ne, of ping_request two_draws 5]
  have f: "res = Inr ?r" "sessions st' = sessions ?st" "length (heap st') = length (heap ?st)"
    "heap st' ! 1 = (heap ?st ! 1)\<lparr>pending_requests := pending_requests (heap ?st ! 1) @ [?r]\<rparr>"
    "\<forall>b<length (heap ?st). b \<noteq> 1 \<longrightarrow> heap st' ! b = heap ?st ! b"
    "promises st' = promises ?st @ [None]"
    unfolding b by (auto simp: p e generate_id_two_draws Let_def)
  have len: "length (heap st') = 2" using f(3) by (simp add: relay_two_sessions_eq)
  have h0: "heap st' ! 0 = heap ?st ! 0" using f(5) by (simp add: relay_two_sessions_eq)
  have "heap st' = [heap st' ! 0, heap st' ! 1]"
    using len by (intro nth_equalityI) (auto simp: less_Suc_eq numeral_2_eq_2)
  then have "heap st' = [heap ?st ! 0,
      (heap ?st ! 1)\<lparr>pending_requests := pending_requests (heap ?st ! 1) @ [?r]\<rparr>]"
    using h0 f(4) by simp
  then have "st' = \<lparr>sessions = sessions ?st, heap = [heap ?st ! 0,
      (heap ?st ! 1)\<lparr>pending_requests := pending_requests (heap ?st ! 1) @ [?r]\<rparr>],
      promises = promises ?st @ [None]\<rparr>"
    using f(2) f(6) by (cases st') simp
  with f(1) e b show ?thesis by (simp add: relay_two_sessions_eq)
qed

lemma reachable_ordered: "reachable st \<Longrightarrow> ordered (sessions st)"
  using reachable_wf by (simp add: registry_wf_def)

section \<open>The reverse agent's start and poll loop\<close>

text \<open>
  C8. When the client is not yet running and the registration fails, because the
  transport fails, or the status is not 200, or the body does not parse, or the reply
  has no \<open>session_id\<close> (or one that is not a string), \<open>start\<close> returns false after
  a single registration request, with no poll request sent, and the client is as it
  was: not running, no polling thread, the stored session identifier untouched.
\<close>

theorem start_fails_when_registration_fails:
  assumes "\<not> running c"
    and "reply = None
         \<or> (\<exists>res. reply = Some res \<and>
               (status res \<noteq> 200 \<or> content res = None
                \<or> (\<exists>response. content res = Some response \<and>
                      (\<not> contains response ''session_id''
                       \<or> Option.bind (json_at response ''session_id'') get_string = None))))"
  shows "start process blocking now reply envs c =
           (False, c, [Http_post (register_endpoint (config c)) (reg_request now)])
         \<and> \<not> is_running (fst (snd (start process blocking now reply envs c)))
         \<and> client_session_id (fst (snd (start process blocking now reply envs c)))
             = client_session_id c
         \<and> poll_thread (fst (snd (start process blocking now reply envs c))) = poll_thread c"
proof -
  have "register_with_proxy now reply c =
      (False, c, [Http_post (register_endpoint (config c)) (reg_request now)])"
    using assms(2) by (auto simp: register_with_proxy_def Let_def)
  with assms(1) show ?thesis by (simp add: start_def is_running_def)
qed

theorem start_fails_when_registration_fails_witness:
  "start empty_result_dispatcher True 7 None [no_work_env] (new_client ''http://relay:9000'') =
     (False, new_client ''http://relay:9000'', [Http_post ''/register'' (reg_request 7)])
   \<and> \<not> is_running (fst (snd (start empty_result_dispatcher True 7 None [no_work_env]
                                   (new_client ''http://relay:9000''))))
   \<and> client_session_id (fst (snd (start empty_result_dispatcher True 7 None [no_work_env]
                                     (new_client ''http://relay:9000'')))) = []"
proof -
  have r: "\<not> running (new_client ''http://relay:9000'')" by (simp add: new_client_def)
  from start_fails_when_registration_fails
    [OF r, of None empty_result_dispatcher True 7 "[no_work_env]"]
  show ?thesis by (simp add: new_client_def default_configuration_def is_running_def)
qed

text \<open>
  For comparison, a registration that succeeds: the session identifier is stored, the
  client is running and, in non-blocking mode, the polling thread exists.
\<close>

lemma start_succeeds:
  assumes "\<not> running c"
    and "reply = Some res" and "status res = 200" and "content res = Some (JObj members)"
    and "map_of members ''session_id'' = Some (JStr sid)"
  shows "start process False now reply envs c =
           (True, c\<lparr>client_session_id := sid, running := True, poll_thread := True\<rparr>,
            [Http_post (register_endpoint (config c)) (reg_request now)])"
  using assms
  by (simp add: start_def register_with_proxy_def Let_def contains_def json_at_def
      get_string_def)

text \<open>
  C9. In the poll loop, a poll answered 204 counts as a success (\<open>process_poll\<close>
  returns true) and the next poll follows at once, with no sleep between. A poll on
  which the transport fails, or which is answered with a status other than 200 and 204,
  counts as a failure, and the loop sleeps \<open>retry_delay_seconds\<close> (5 by default)
  before the next poll. In both cases the loop goes on with the next iteration, the
  client unchanged.
\<close>

theorem poll_loop_no_work_and_failure:
  "(\<forall>res. poll_result env = Some res \<and> status res = 204 \<longrightarrow>
       process_poll process env c = (True, [Http_get (poll_url c)])
       \<and> poll_loop process c (env # envs) = Http_get (poll_url c) # poll_loop process c envs)
   \<and> (poll_result env = None
       \<or> (\<exists>res. poll_result env = Some res \<and> status res \<noteq> 200 \<and> status res \<noteq> 204) \<longrightarrow>
       process_poll process env c = (False, [Http_get (poll_url c)])
       \<and> poll_loop process c (env # envs) =
           Http_get (poll_url c) # Sleep_for (retry_delay_seconds (config c))
             # poll_loop process c envs)
   \<and> retry_delay_seconds (default_configuration url) = 5"
  by (auto simp: process_poll_def default_configuration_def Let_def)

theorem poll_loop_no_work_and_failure_witness:
  "poll_loop empty_result_dispatcher (new_client ''http://relay:9000'')
     [no_work_env, unreachable_env, not_found_env] =
     [Http_get ''/poll?session_id='',
      Http_get ''/poll?session_id='', Sleep_for 5,
      Http_get ''/poll?session_id='', Sleep_for 5]"
proof -
  let ?c = "new_client ''http://relay:9000''"
  let ?p = "empty_result_dispatcher"
  have u: "poll_url ?c = ''/poll?session_id=''"
    and d: "retry_delay_seconds (config ?c) = 5"
    by (simp_all add: poll_url_def new_client_def default_configuration_def)
  have "poll_loop ?p ?c [no_work_env, unreachable_env, not_found_env]
      = Http_get (poll_url ?c) # poll_loop ?p ?c [unreachable_env, not_found_env]"
    using poll_loop_no_work_and_failure [of no_work_env ?p ?c "[unreachable_env, not_found_env]"]
    by (simp add: no_work_env_def)
  also have "poll_loop ?p ?c [unreachable_env, not_found_env]
      = Http_get (poll_url ?c) # Sleep_for (retry_delay_seconds (config ?c))
          # poll_loop ?p ?c [not_found_env]"
    using poll_loop_no_work_and_failure [of unreachable_env ?p ?c "[not_found_env]"]
    by (simp add: unreachable_env_def)
  also have "poll_loop ?p ?c [not_found_env]
      = Http_get (poll_url ?c) # Sleep_for (retry_delay_seconds (config ?c)) # poll_loop ?p ?c []"
    using poll_loop_no_work_and_failure [of not_found_env ?p ?c "[]"]
    by (simp add: not_found_env_def error_reply_def)
  finally show ?thesis by (simp add: u d)
qed

end
